theory Spec2Isabelle
  imports Main
begin

section \<open>JavaScript values and flat objects\<close>

text \<open>
  The plugin only handles flat records of scalars (the state of the slide deck:
  \<open>indexh\<close>, \<open>indexv\<close>, \<open>indexf\<close>, \<open>paused\<close>, \<open>overview\<close>) and
  opaque payloads. Numbers are slide indices and millisecond clocks, so they
  are modelled as integers; on these scalars the strict comparison \<open>===\<close> of
  the source is equality of values. A field that an object does not have reads as
  \<open>undefined\<close>, as in JavaScript.
\<close>

datatype jsval = JUndefined | JNull | JBool bool | JNum int | JStr string

text \<open>An object is its list of own properties; the first binding of a name is its value.\<close>

type_synonym jsobj = "(string \<times> jsval) list"

definition getProp :: "jsobj \<Rightarrow> string \<Rightarrow> jsval" where
  "getProp a p = (case map_of a p of None \<Rightarrow> JUndefined | Some v \<Rightarrow> v)"

definition getOwnPropertyNames :: "jsobj \<Rightarrow> string list" where
  "getOwnPropertyNames a = remdups (map fst a)"

text \<open>Truthiness, for the tests \<open>if (x)\<close> on the values of options.\<close>

fun truthy :: "jsval \<Rightarrow> bool" where
  "truthy JUndefined = False"
| "truthy JNull = False"
| "truthy (JBool b) = b"
| "truthy (JNum n) = (n \<noteq> 0)"
| "truthy (JStr s) = (s \<noteq> [])"

section \<open>Equivalence of state records\<close>

text \<open>
  The variant with the debounced publisher compares four fixed fields:
  \<^verbatim>\<open>return (s1.indexh === s2.indexh && s1.indexv === s2.indexv
          && s1.indexf === s2.indexf && s1.paused === s2.paused);\<close>
\<close>

definition isEquivalent :: "jsobj \<Rightarrow> jsobj \<Rightarrow> bool" where
  "isEquivalent s1 s2 =
     (getProp s1 ''indexh'' = getProp s2 ''indexh'' \<and>
      getProp s1 ''indexv'' = getProp s2 ''indexv'' \<and>
      getProp s1 ''indexf'' = getProp s2 ''indexf'' \<and>
      getProp s1 ''paused'' = getProp s2 ''paused'')"

text \<open>
  \<^verbatim>\<open>broadcast.js\<close> compares the number of own properties and then walks the
  property names of the first object only:
  \<^verbatim>\<open>if (aProps.length != bProps.length) return false;
  for (var i = 0; i < aProps.length; i++) {
      var propName = aProps[i];
      if (a[propName] !== b[propName]) return false;
  }
  return true;\<close>
\<close>

fun bc_isEquivalent_loop :: "string list \<Rightarrow> jsobj \<Rightarrow> jsobj \<Rightarrow> bool" where
  "bc_isEquivalent_loop [] a b = True"
| "bc_isEquivalent_loop (propName # rest) a b =
     (if getProp a propName \<noteq> getProp b propName then False
      else bc_isEquivalent_loop rest a b)"

definition bc_isEquivalent :: "jsobj \<Rightarrow> jsobj \<Rightarrow> bool" where
  "bc_isEquivalent a b =
     (let aProps = getOwnPropertyNames a; bProps = getOwnPropertyNames b
      in if length aProps \<noteq> length bProps then False
         else bc_isEquivalent_loop aProps a b)"

text \<open>
  The contract as the specification words it: the same set of field names, and
  every field's value equal.
\<close>

definition spec_equivalent :: "jsobj \<Rightarrow> jsobj \<Rightarrow> bool" where
  "spec_equivalent a b =
     (set (getOwnPropertyNames a) = set (getOwnPropertyNames b) \<and>
      list_all (\<lambda>p. getProp a p = getProp b p) (getOwnPropertyNames a))"

section \<open>The plugin and its environment\<close>

text \<open>
  The options of the plugin that the synchronisation logic reads. The defaults
  are those of the constructor; \<open>secret\<close> and \<open>socketId\<close> have no default.
\<close>

record options =
  secret :: jsval
  socketId :: jsval
  eventDispatchDelay :: int
  stateDispatchDelay :: int
  remoteStateChangeBlackout :: int

definition default_options :: options where
  "default_options =
     \<lparr>secret = JUndefined, socketId = JUndefined, eventDispatchDelay = 100,
      stateDispatchDelay = 500, remoteStateChangeBlackout = 2000\<rparr>"

text \<open>
  A message on the channel, outbound (\<open>socket.emit\<close>) or inbound: a field that
  is absent is \<open>None\<close>.
\<close>

record message =
  msg_secret :: jsval
  msg_socketId :: jsval
  msg_state :: "jsobj option"
  msg_events :: "jsval list option"

text \<open>
  The two closures handed to \<open>setTimeout\<close>. The closure of
  \<open>handleStateChange\<close> refers to the local variable \<open>state\<close> of the call
  that created it, so it carries that value.
\<close>

datatype callback = StateDispatch jsobj | EventDispatch

record timer =
  tid :: nat
  due :: int
  cb :: callback

text \<open>
  The fields of the plugin object, followed by the environment it runs in: the
  clock \<open>Date.now()\<close>, the state of the deck that \<open>getState()\<close> returns as
  a fresh snapshot, the pending timeouts of the event loop, the messages given to
  \<open>socket.emit\<close> and the contents of the \<open>received\<close> events dispatched on
  the document, both oldest first.
\<close>

record world =
  opts :: options
  lastStateChange :: int
  stateDispatchTimer :: "nat option"
  lastSharedState :: "jsobj option"
  lastRemoteStateChange :: int
  lastEventDispatch :: int
  eventDispatchTimer :: "nat option"
  eventQueue :: "jsval list"
  now :: int
  deckState :: jsobj
  timers :: "timer list"
  nextTimerId :: nat
  emitted :: "message list"
  received :: "jsval list"

definition initial :: "options \<Rightarrow> jsobj \<Rightarrow> int \<Rightarrow> world" where
  "initial os deck t0 =
     \<lparr>opts = os, lastStateChange = 0, stateDispatchTimer = None,
      lastSharedState = None, lastRemoteStateChange = 0, lastEventDispatch = 0,
      eventDispatchTimer = None, eventQueue = [], now = t0, deckState = deck,
      timers = [], nextTimerId = 1, emitted = [], received = []\<rparr>"

subsection \<open>Timeouts\<close>

text \<open>
  \<open>setTimeout\<close> returns a fresh positive handle and the callback runs no
  earlier than the delay (a negative delay counts as zero);
  \<open>clearTimeout\<close> removes the timeout with that handle.
\<close>

definition setTimeout :: "callback \<Rightarrow> int \<Rightarrow> world \<Rightarrow> nat \<times> world" where
  "setTimeout f delay w =
     (nextTimerId w,
      w\<lparr>timers := timers w @ [\<lparr>tid = nextTimerId w, due = now w + max 0 delay, cb = f\<rparr>],
        nextTimerId := Suc (nextTimerId w)\<rparr>)"

definition clearTimeout :: "nat \<Rightarrow> world \<Rightarrow> world" where
  "clearTimeout i w = w\<lparr>timers := filter (\<lambda>t. tid t \<noteq> i) (timers w)\<rparr>"

subsection \<open>Debounced state publisher\<close>

definition state_message :: "options \<Rightarrow> jsobj \<Rightarrow> message" where
  "state_message os st =
     \<lparr>msg_secret = secret os, msg_socketId = socketId os,
      msg_state = Some st, msg_events = None\<rparr>"

definition dispatchStateChange :: "jsobj \<Rightarrow> world \<Rightarrow> world" where
  "dispatchStateChange st w =
     w\<lparr>lastSharedState := Some st,
       emitted := emitted w @ [state_message (opts w) st]\<rparr>"

definition handleStateChange :: "world \<Rightarrow> world" where
  "handleStateChange w =
     (let st = deckState w; t = now w in
      if (case lastSharedState w of None \<Rightarrow> False | Some l \<Rightarrow> isEquivalent st l) then w
      else if t - lastRemoteStateChange w < remoteStateChangeBlackout (opts w) then w
      else
        (if t - lastStateChange w \<ge> stateDispatchDelay (opts w)
         then dispatchStateChange st w
         else
           (let w1 = (case stateDispatchTimer w of None \<Rightarrow> w | Some i \<Rightarrow> clearTimeout i w);
                (i, w2) = setTimeout (StateDispatch st) (stateDispatchDelay (opts w)) w1
            in w2\<lparr>stateDispatchTimer := Some i\<rparr>))
        \<lparr>lastStateChange := t\<rparr>)"

subsection \<open>Event batcher\<close>

definition events_message :: "options \<Rightarrow> jsval list \<Rightarrow> message" where
  "events_message os es =
     \<lparr>msg_secret = secret os, msg_socketId = socketId os,
      msg_state = None, msg_events = Some es\<rparr>"

definition dispatchEventQueue :: "world \<Rightarrow> world" where
  "dispatchEventQueue w =
     (if length (eventQueue w) > 0
      then w\<lparr>eventQueue := [],
             emitted := emitted w @ [events_message (opts w) (eventQueue w)],
             lastEventDispatch := now w\<rparr>
      else w)"

definition handleCustomEvent :: "jsval \<Rightarrow> world \<Rightarrow> world" where
  "handleCustomEvent content w =
     (let w1 = w\<lparr>eventQueue := eventQueue w @ [content]\<rparr>;
          interval = now w1 - lastEventDispatch w1 in
      if interval \<ge> eventDispatchDelay (opts w1) then dispatchEventQueue w1
      else if eventDispatchTimer w1 = None
      then (let (i, w2) = setTimeout EventDispatch (eventDispatchDelay (opts w1) - interval) w1
            in w2\<lparr>eventDispatchTimer := Some i\<rparr>)
      else w1)"

subsection \<open>Remote message handler\<close>

text \<open>
  The presentation engine is not part of the repository. As the specification
  describes it, \<open>getState()\<close> returns a fresh snapshot of the state of the
  deck and \<open>setState\<close> makes the given snapshot that state; the
  notifications that the deck sends afterwards are events of their own.
\<close>

definition handleReceivedMessage :: "message \<Rightarrow> world \<Rightarrow> world" where
  "handleReceivedMessage data w =
     (if msg_socketId data \<noteq> socketId (opts w) then w
      else
        (let w1 = (case msg_state data of
                     None \<Rightarrow> w
                   | Some st \<Rightarrow> w\<lparr>lastSharedState := Some st,
                                  lastRemoteStateChange := now w,
                                  deckState := st\<rparr>)
         in case msg_events data of
              None \<Rightarrow> w1
            | Some es \<Rightarrow> w1\<lparr>received := received w1 @ es\<rparr>))"

subsection \<open>The event loop\<close>

text \<open>
  Execution is single-threaded: one handler or callback runs at a time. The
  clock only moves forward, the user may change the state of the deck, the deck
  notifies \<open>handleStateChange\<close>, a \<open>send\<close> event reaches
  \<open>handleCustomEvent\<close>, the socket delivers a message, and a pending
  timeout whose delay has passed runs its callback (at that moment or later).
\<close>

datatype event =
    Tick nat
  | DeckChange jsobj
  | LocalChange
  | CustomEvent jsval
  | Receive message
  | Fire nat

fun run_callback :: "callback \<Rightarrow> world \<Rightarrow> world" where
  "run_callback (StateDispatch st) w = dispatchStateChange st (w\<lparr>stateDispatchTimer := None\<rparr>)"
| "run_callback EventDispatch w = dispatchEventQueue (w\<lparr>eventDispatchTimer := None\<rparr>)"

definition fire :: "nat \<Rightarrow> world \<Rightarrow> world" where
  "fire i w =
     (case find (\<lambda>t. tid t = i) (timers w) of
        None \<Rightarrow> w
      | Some t \<Rightarrow>
          if due t \<le> now w
          then run_callback (cb t) (w\<lparr>timers := filter (\<lambda>t. tid t \<noteq> i) (timers w)\<rparr>)
          else w)"

fun step :: "world \<Rightarrow> event \<Rightarrow> world" where
  "step w (Tick d) = w\<lparr>now := now w + int d\<rparr>"
| "step w (DeckChange st) = w\<lparr>deckState := st\<rparr>"
| "step w LocalChange = handleStateChange w"
| "step w (CustomEvent content) = handleCustomEvent content w"
| "step w (Receive data) = handleReceivedMessage data w"
| "step w (Fire i) = fire i w"

definition run :: "world \<Rightarrow> event list \<Rightarrow> world" where
  "run w evs = foldl step w evs"

fun elapsed :: "event list \<Rightarrow> int" where
  "elapsed [] = 0"
| "elapsed (Tick d # evs) = int d + elapsed evs"
| "elapsed (_ # evs) = elapsed evs"

subsection \<open>Quantities read off a world\<close>

text \<open>
  A call of \<open>handleStateChange\<close> returns at once when the state of the deck
  is equivalent to the last shared one or the blackout after a remote change is
  still running.
\<close>

definition suppressed :: "world \<Rightarrow> bool" where
  "suppressed w =
     ((case lastSharedState w of None \<Rightarrow> False | Some l \<Rightarrow> isEquivalent (deckState w) l) \<or>
      now w - lastRemoteStateChange w < remoteStateChangeBlackout (opts w))"

definition is_state_timer :: "timer \<Rightarrow> bool" where
  "is_state_timer t = (case cb t of StateDispatch st \<Rightarrow> True | EventDispatch \<Rightarrow> False)"

definition is_event_timer :: "timer \<Rightarrow> bool" where
  "is_event_timer t = (case cb t of StateDispatch st \<Rightarrow> False | EventDispatch \<Rightarrow> True)"

text \<open>The pending timeouts of each kind are exactly those the plugin holds a handle of.\<close>

definition handle_ids :: "nat option \<Rightarrow> nat list" where
  "handle_ids h = (case h of None \<Rightarrow> [] | Some i \<Rightarrow> [i])"

definition timers_wf :: "world \<Rightarrow> bool" where
  "timers_wf w =
     (distinct (map tid (timers w)) \<and>
      list_all (\<lambda>t. tid t < nextTimerId w) (timers w) \<and>
      map tid (filter is_state_timer (timers w)) = handle_ids (stateDispatchTimer w) \<and>
      map tid (filter is_event_timer (timers w)) = handle_ids (eventDispatchTimer w))"






section \<open>Initialisation\<close>

text \<open>
  The user's configuration \<open>reveal.getConfig()[this.id]\<close>: absent, or an
  object whose keys, where present, replace the defaults through
  \<open>Object.assign\<close>.
\<close>

record config =
  cfg_secret :: "jsval option"
  cfg_socketId :: "jsval option"
  cfg_eventDispatchDelay :: "int option"
  cfg_stateDispatchDelay :: "int option"
  cfg_remoteStateChangeBlackout :: "int option"

definition assign :: "options \<Rightarrow> config \<Rightarrow> options" where
  "assign os c =
     \<lparr>secret = (case cfg_secret c of None \<Rightarrow> secret os | Some v \<Rightarrow> v),
      socketId = (case cfg_socketId c of None \<Rightarrow> socketId os | Some v \<Rightarrow> v),
      eventDispatchDelay =
        (case cfg_eventDispatchDelay c of None \<Rightarrow> eventDispatchDelay os | Some v \<Rightarrow> v),
      stateDispatchDelay =
        (case cfg_stateDispatchDelay c of None \<Rightarrow> stateDispatchDelay os | Some v \<Rightarrow> v),
      remoteStateChangeBlackout =
        (case cfg_remoteStateChangeBlackout c of
           None \<Rightarrow> remoteStateChangeBlackout os | Some v \<Rightarrow> v)\<rparr>"

text \<open>
  What initialisation sets up: the request to load the socket library, the
  socket, the handler of its \<open>connect\<close> event, and how often
  \<open>setupMaster\<close> and \<open>setupClient\<close> have registered their listeners.
\<close>

record plugin =
  p_options :: options
  scriptRequested :: bool
  socket :: bool
  connectHandler :: bool
  setupFinished :: bool
  masterSetups :: nat
  clientSetups :: nat

definition new_plugin :: plugin where
  "new_plugin =
     \<lparr>p_options = default_options, scriptRequested = False, socket = False,
      connectHandler = False, setupFinished = False, masterSetups = 0, clientSetups = 0\<rparr>"

definition setupMaster :: "plugin \<Rightarrow> plugin" where
  "setupMaster p = p\<lparr>masterSetups := Suc (masterSetups p)\<rparr>"

definition setupClient :: "plugin \<Rightarrow> plugin" where
  "setupClient p = p\<lparr>clientSetups := Suc (clientSetups p)\<rparr>"

definition init :: "config option \<Rightarrow> plugin \<Rightarrow> plugin" where
  "init cfg p =
     (let p1 = p\<lparr>setupFinished := False\<rparr>;
          p2 = (case cfg of None \<Rightarrow> p1
                | Some c \<Rightarrow> p1\<lparr>p_options := assign (p_options p1) c\<rparr>)
      in if socketId (p_options p2) = JUndefined then p2
         else p2\<lparr>scriptRequested := True\<rparr>)"

text \<open>The callback of \<open>loadJavaScript\<close> and the handler of \<open>connect\<close>.\<close>

definition on_script_loaded :: "plugin \<Rightarrow> plugin" where
  "on_script_loaded p = p\<lparr>scriptRequested := False, socket := True, connectHandler := True\<rparr>"

definition on_connect :: "plugin \<Rightarrow> plugin" where
  "on_connect p =
     (if setupFinished p then p
      else
        (let p1 = (if truthy (secret (p_options p)) then setupMaster p else p);
             p2 = (if truthy (socketId (p_options p1)) then setupClient p1 else p1)
         in p2\<lparr>setupFinished := True\<rparr>))"

text \<open>
  What can happen after \<open>init\<close>: the script finishes loading if it was
  requested, and the socket connects (again and again) if there is one.
\<close>

datatype lifecycle = ScriptLoaded | Connect

fun lifecycle_step :: "plugin \<Rightarrow> lifecycle \<Rightarrow> plugin" where
  "lifecycle_step p ScriptLoaded = (if scriptRequested p then on_script_loaded p else p)"
| "lifecycle_step p Connect = (if connectHandler p then on_connect p else p)"

subsection \<open>The variant \<^verbatim>\<open>broadcast.js\<close>\<close>

text \<open>
  \<^verbatim>\<open>broadcast.js\<close> has the roles as options \<open>master\<close> and \<open>client\<close>,
  both true by default, and sets the plugin up in the callback of
  \<open>loadJavaScript\<close>; \<open>receiver\<close> says whether the query string of the
  page matches \<^verbatim>\<open>/receiver/gi\<close>.
\<close>

record bc_options =
  bc_master :: jsval
  bc_client :: jsval
  bc_dispatchDelay :: int
  bc_secret :: jsval
  bc_socketId :: jsval

definition bc_default_options :: bc_options where
  "bc_default_options =
     \<lparr>bc_master = JBool True, bc_client = JBool True, bc_dispatchDelay = 100,
      bc_secret = JUndefined, bc_socketId = JUndefined\<rparr>"

record bc_config =
  bc_cfg_master :: "jsval option"
  bc_cfg_client :: "jsval option"
  bc_cfg_dispatchDelay :: "int option"
  bc_cfg_secret :: "jsval option"
  bc_cfg_socketId :: "jsval option"

definition bc_assign :: "bc_options \<Rightarrow> bc_config \<Rightarrow> bc_options" where
  "bc_assign os c =
     \<lparr>bc_master = (case bc_cfg_master c of None \<Rightarrow> bc_master os | Some v \<Rightarrow> v),
      bc_client = (case bc_cfg_client c of None \<Rightarrow> bc_client os | Some v \<Rightarrow> v),
      bc_dispatchDelay =
        (case bc_cfg_dispatchDelay c of None \<Rightarrow> bc_dispatchDelay os | Some v \<Rightarrow> v),
      bc_secret = (case bc_cfg_secret c of None \<Rightarrow> bc_secret os | Some v \<Rightarrow> v),
      bc_socketId = (case bc_cfg_socketId c of None \<Rightarrow> bc_socketId os | Some v \<Rightarrow> v)\<rparr>"

record bc_plugin =
  bc_p_options :: bc_options
  bc_scriptRequested :: bool
  bc_socket :: bool
  bc_masterSetups :: nat
  bc_clientSetups :: nat

definition bc_new_plugin :: bc_plugin where
  "bc_new_plugin =
     \<lparr>bc_p_options = bc_default_options, bc_scriptRequested = False, bc_socket = False,
      bc_masterSetups = 0, bc_clientSetups = 0\<rparr>"

definition bc_init :: "bc_config option \<Rightarrow> bc_plugin \<Rightarrow> bc_plugin" where
  "bc_init cfg p =
     (let p1 = (case cfg of None \<Rightarrow> p
                | Some c \<Rightarrow> p\<lparr>bc_p_options := bc_assign (bc_p_options p) c\<rparr>)
      in p1\<lparr>bc_scriptRequested := True\<rparr>)"

definition bc_on_script_loaded :: "bool \<Rightarrow> bc_plugin \<Rightarrow> bc_plugin" where
  "bc_on_script_loaded receiver p =
     (let p1 = p\<lparr>bc_scriptRequested := False, bc_socket := True\<rparr>;
          p2 = (if truthy (bc_master (bc_p_options p1)) \<and> \<not> receiver
                then p1\<lparr>bc_masterSetups := Suc (bc_masterSetups p1)\<rparr> else p1)
      in if truthy (bc_client (bc_p_options p2))
         then p2\<lparr>bc_clientSetups := Suc (bc_clientSetups p2)\<rparr> else p2)"

text \<open>
  Its state publisher and its handler of inbound messages share
  \<open>lastMsgState\<close>, the last state sent or received; neither reads a clock.
  \<open>handleStateChange\<close> sends the state of the deck whenever there is no
  last state or the deck is not equivalent to it:
  \<^verbatim>\<open>if (!this.lastMsgState || !this.isEquivalent(this.deck.getState(), this.lastMsgState)) {
      let messageData = { secret: ..., socketId: ..., state: this.deck.getState() };
      this.lastMsgState = {...this.deck.getState()};
      this.socket.emit( 'multiplex-statechanged', messageData );
  }\<close>
\<close>

record bc_world =
  bc_opts :: bc_options
  lastMsgState :: "jsobj option"
  bc_deckState :: jsobj
  bc_emitted :: "message list"
  bc_received :: "jsval list"

definition bc_handleStateChange :: "bc_world \<Rightarrow> bc_world" where
  "bc_handleStateChange w =
     (if (case lastMsgState w of None \<Rightarrow> True
          | Some l \<Rightarrow> \<not> bc_isEquivalent (bc_deckState w) l)
      then w\<lparr>lastMsgState := Some (bc_deckState w),
             bc_emitted := bc_emitted w @
               [\<lparr>msg_secret = bc_secret (bc_opts w), msg_socketId = bc_socketId (bc_opts w),
                 msg_state = Some (bc_deckState w), msg_events = None\<rparr>]\<rparr>
      else w)"

definition bc_handleReceivedMessage :: "message \<Rightarrow> bc_world \<Rightarrow> bc_world" where
  "bc_handleReceivedMessage data w =
     (if msg_socketId data \<noteq> bc_socketId (bc_opts w) then w
      else
        (let w1 = (case msg_state data of
                     None \<Rightarrow> w
                   | Some st \<Rightarrow> w\<lparr>lastMsgState := Some st, bc_deckState := st\<rparr>)
         in case msg_events data of
              None \<Rightarrow> w1
            | Some es \<Rightarrow> w1\<lparr>bc_received := bc_received w1 @ es\<rparr>))"

section \<open>A session to run\<close>

text \<open>
  A deck on slide \<open>n\<close> as \<open>getState()\<close> reports it, a plugin configured
  as publisher and subscriber of the channel \<open>main\<close> with the default
  delays, started when the clock reads 10000 ms, the same for
  \<^verbatim>\<open>broadcast.js\<close>, and a state message as the socket delivers it.
\<close>

definition slide :: "int \<Rightarrow> jsobj" where
  "slide n = [(''indexh'', JNum n), (''indexv'', JNum 0), (''indexf'', JUndefined),
              (''paused'', JBool False), (''overview'', JBool False)]"

definition main_options :: options where
  "main_options = default_options\<lparr>secret := JStr ''s3cret'', socketId := JStr ''main''\<rparr>"

definition session :: world where
  "session = initial main_options (slide 0) 10000"

definition bc_session :: bc_world where
  "bc_session =
     \<lparr>bc_opts = bc_default_options\<lparr>bc_secret := JStr ''s3cret'', bc_socketId := JStr ''main''\<rparr>,
      lastMsgState = None, bc_deckState = slide 0, bc_emitted = [], bc_received = []\<rparr>"

definition remote_state :: "string \<Rightarrow> jsobj \<Rightarrow> message" where
  "remote_state channel st =
     \<lparr>msg_secret = JNull, msg_socketId = JStr channel, msg_state = Some st, msg_events = None\<rparr>"

text \<open>
  A burst: the first call publishes slide 0 at once; 100 ms later the deck is on
  slide 1 and the second call, too early for another publish, sets timeout 1,
  due at 10600.
\<close>

definition burst :: "event list" where
  "burst = [LocalChange, Tick 100, DeckChange (slide 1), LocalChange]"

section \<open>The equivalence checker\<close>

lemma set_getOwnPropertyNames: "set (getOwnPropertyNames a) = fst ` set a"
  by (simp add: getOwnPropertyNames_def)

lemma getProp_absent:
  assumes "p \<notin> fst ` set a"
  shows "getProp a p = JUndefined"
proof -
  from assms have "map_of a p = None" by (simp add: map_of_eq_None_iff)
  then show ?thesis by (simp add: getProp_def)
qed

lemma getProp_present: "getProp a p \<noteq> JUndefined \<Longrightarrow> p \<in> fst ` set a"
  using getProp_absent by blast

lemma bc_isEquivalent_loop_iff:
  "bc_isEquivalent_loop ps a b = list_all (\<lambda>p. getProp a p = getProp b p) ps"
  by (induction ps) auto

lemma length_getOwnPropertyNames:
  "length (getOwnPropertyNames a) = card (set (getOwnPropertyNames a))"
proof -
  have "distinct (getOwnPropertyNames a)" by (simp add: getOwnPropertyNames_def)
  then show ?thesis by (simp only: distinct_card)
qed

lemma spec_equivalent_getProp:
  assumes "spec_equivalent a b"
  shows "getProp a p = getProp b p"
proof (cases "p \<in> fst ` set a")
  case True
  then have "p \<in> set (getOwnPropertyNames a)"
    by (simp add: set_getOwnPropertyNames)
  with assms show ?thesis
    unfolding spec_equivalent_def list_all_iff by blast
next
  case False
  moreover from False assms have "p \<notin> fst ` set b"
    by (simp add: spec_equivalent_def set_getOwnPropertyNames)
  ultimately show ?thesis by (simp add: getProp_absent)
qed

lemma spec_equivalent_imp_bc:
  assumes "spec_equivalent a b"
  shows "bc_isEquivalent a b"
proof -
  have vals: "list_all (\<lambda>p. getProp a p = getProp b p) (getOwnPropertyNames a)"
    using assms by (simp add: spec_equivalent_def)
  have "set (getOwnPropertyNames a) = set (getOwnPropertyNames b)"
    using assms by (simp add: spec_equivalent_def)
  then have "length (getOwnPropertyNames a) = length (getOwnPropertyNames b)"
    by (simp only: length_getOwnPropertyNames)
  with vals show ?thesis
    by (simp add: bc_isEquivalent_def Let_def bc_isEquivalent_loop_iff)
qed

lemma spec_equivalent_imp_fixed:
  "spec_equivalent a b \<Longrightarrow> isEquivalent a b"
  unfolding isEquivalent_def
  by (intro conjI spec_equivalent_getProp)

lemma bc_imp_spec_equivalent:
  assumes eq: "bc_isEquivalent a b"
    and def: "list_all (\<lambda>p. getProp a p \<noteq> JUndefined) (getOwnPropertyNames a)"
  shows "spec_equivalent a b"
proof -
  from eq have len: "length (getOwnPropertyNames a) = length (getOwnPropertyNames b)"
    and vals: "list_all (\<lambda>p. getProp a p = getProp b p) (getOwnPropertyNames a)"
    by (auto simp: bc_isEquivalent_def Let_def bc_isEquivalent_loop_iff split: if_splits)
  have sub: "set (getOwnPropertyNames a) \<subseteq> set (getOwnPropertyNames b)"
  proof
    fix p assume p: "p \<in> set (getOwnPropertyNames a)"
    with def vals have "getProp b p \<noteq> JUndefined" by (auto simp: list_all_iff)
    then show "p \<in> set (getOwnPropertyNames b)"
      using getProp_present by (simp add: set_getOwnPropertyNames)
  qed
  from len have "card (set (getOwnPropertyNames a)) = card (set (getOwnPropertyNames b))"
    by (simp only: length_getOwnPropertyNames)
  with sub have "set (getOwnPropertyNames a) = set (getOwnPropertyNames b)"
    by (simp add: card_subset_eq)
  with vals show ?thesis by (simp add: spec_equivalent_def)
qed

lemma fixed_imp_spec_equivalent:
  assumes eq: "isEquivalent a b"
    and names: "set (getOwnPropertyNames a) = set (getOwnPropertyNames b)"
    and four: "set (getOwnPropertyNames a) \<subseteq> {''indexh'', ''indexv'', ''indexf'', ''paused''}"
  shows "spec_equivalent a b"
proof -
  have "getProp a p = getProp b p" if "p \<in> set (getOwnPropertyNames a)" for p
    using that four eq by (auto simp: isEquivalent_def)
  with names show ?thesis by (simp add: spec_equivalent_def list_all_iff)
qed

text \<open>
  C4, as stated, fails. In \<^verbatim>\<open>broadcast.js\<close> two records with as many
  fields, one of them named differently and \<open>undefined\<close> in both, are found
  equivalent; the four-field comparison of the other variant does not see a
  difference in \<open>overview\<close>. In both cases the records do not have the same
  fields with equal values.
\<close>

theorem isEquivalent_not_iff_same_fields:
  "bc_isEquivalent [(''indexh'', JNum 1), (''indexf'', JUndefined)]
                   [(''indexh'', JNum 1), (''paused'', JUndefined)] \<and>
   \<not> spec_equivalent [(''indexh'', JNum 1), (''indexf'', JUndefined)]
                     [(''indexh'', JNum 1), (''paused'', JUndefined)] \<and>
   isEquivalent
     [(''indexh'', JNum 1), (''indexv'', JNum 0), (''paused'', JBool False),
      (''overview'', JBool False)]
     [(''indexh'', JNum 1), (''indexv'', JNum 0), (''paused'', JBool False),
      (''overview'', JBool True)] \<and>
   \<not> spec_equivalent
     [(''indexh'', JNum 1), (''indexv'', JNum 0), (''paused'', JBool False),
      (''overview'', JBool False)]
     [(''indexh'', JNum 1), (''indexv'', JNum 0), (''paused'', JBool False),
      (''overview'', JBool True)]"
  by code_simp

text \<open>
  C4, amended: two records with the same field names and equal values are found
  equivalent by both variants. The converse needs more: in \<^verbatim>\<open>broadcast.js\<close>
  that no field of the first record is \<open>undefined\<close>; with the four-field
  comparison that the two records have the same field names, all among
  \<open>indexh\<close>, \<open>indexv\<close>, \<open>indexf\<close> and \<open>paused\<close>.
\<close>

theorem isEquivalent_same_fields:
  "(spec_equivalent a b \<longrightarrow> bc_isEquivalent a b \<and> isEquivalent a b) \<and>
   (bc_isEquivalent a b \<and>
    list_all (\<lambda>p. getProp a p \<noteq> JUndefined) (getOwnPropertyNames a)
      \<longrightarrow> spec_equivalent a b) \<and>
   (isEquivalent a b \<and> set (getOwnPropertyNames a) = set (getOwnPropertyNames b) \<and>
    set (getOwnPropertyNames a) \<subseteq> {''indexh'', ''indexv'', ''indexf'', ''paused''}
      \<longrightarrow> spec_equivalent a b)"
proof (intro conjI impI)
  assume "spec_equivalent a b"
  then show "bc_isEquivalent a b" and "isEquivalent a b"
    by (rule spec_equivalent_imp_bc, rule spec_equivalent_imp_fixed)
next
  assume "bc_isEquivalent a b \<and>
    list_all (\<lambda>p. getProp a p \<noteq> JUndefined) (getOwnPropertyNames a)"
  then show "spec_equivalent a b"
    using bc_imp_spec_equivalent by (elim conjE)
next
  assume "isEquivalent a b \<and> set (getOwnPropertyNames a) = set (getOwnPropertyNames b) \<and>
    set (getOwnPropertyNames a) \<subseteq> {''indexh'', ''indexv'', ''indexf'', ''paused''}"
  then show "spec_equivalent a b"
    using fixed_imp_spec_equivalent by (elim conjE)
qed

theorem isEquivalent_same_fields_witness:
  "spec_equivalent [(''indexh'', JNum 1), (''paused'', JBool False)]
                   [(''paused'', JBool False), (''indexh'', JNum 1)] \<and>
   bc_isEquivalent [(''indexh'', JNum 1), (''paused'', JBool False)]
                   [(''paused'', JBool False), (''indexh'', JNum 1)] \<and>
   isEquivalent [(''indexh'', JNum 1), (''paused'', JBool False)]
                [(''paused'', JBool False), (''indexh'', JNum 1)]"
proof -
  have s: "spec_equivalent [(''indexh'', JNum 1), (''paused'', JBool False)]
                           [(''paused'', JBool False), (''indexh'', JNum 1)]"
    by code_simp
  with isEquivalent_same_fields [of "[(''indexh'', JNum 1), (''paused'', JBool False)]"
      "[(''paused'', JBool False), (''indexh'', JNum 1)]"]
  show ?thesis by blast
qed

section \<open>Runs of the event loop\<close>

lemma run_Nil [simp]: "run w [] = w"
  by (simp add: run_def)

lemma run_Cons [simp]: "run w (e # evs) = run (step w e) evs"
  by (simp add: run_def)

lemma elapsed_nonneg: "0 \<le> elapsed evs"
  by (induction evs rule: elapsed.induct) auto

lemma handleStateChange_suppressed:
  "suppressed w \<Longrightarrow> handleStateChange w = w"
  by (auto simp: handleStateChange_def suppressed_def Let_def)

lemma handleStateChange_immediate:
  assumes "\<not> suppressed w" and "stateDispatchDelay (opts w) \<le> now w - lastStateChange w"
  shows "handleStateChange w =
         w\<lparr>lastSharedState := Some (deckState w),
           emitted := emitted w @ [state_message (opts w) (deckState w)],
           lastStateChange := now w\<rparr>"
  using assms
  by (auto simp: handleStateChange_def suppressed_def Let_def dispatchStateChange_def)

lemma handleStateChange_schedule:
  assumes "\<not> suppressed w" and "now w - lastStateChange w < stateDispatchDelay (opts w)"
  shows "handleStateChange w =
         w\<lparr>timers :=
             (case stateDispatchTimer w of None \<Rightarrow> timers w
              | Some i \<Rightarrow> filter (\<lambda>t. tid t \<noteq> i) (timers w)) @
             [\<lparr>tid = nextTimerId w, due = now w + max 0 (stateDispatchDelay (opts w)),
               cb = StateDispatch (deckState w)\<rparr>],
           nextTimerId := Suc (nextTimerId w),
           stateDispatchTimer := Some (nextTimerId w),
           lastStateChange := now w\<rparr>"
  using assms
  by (auto simp: handleStateChange_def suppressed_def Let_def setTimeout_def clearTimeout_def
      split: option.splits)

lemma handleCustomEvent_immediate:
  assumes "eventDispatchDelay (opts w) \<le> now w - lastEventDispatch w"
  shows "handleCustomEvent content w =
         w\<lparr>eventQueue := [],
           emitted := emitted w @ [events_message (opts w) (eventQueue w @ [content])],
           lastEventDispatch := now w\<rparr>"
  using assms by (simp add: handleCustomEvent_def Let_def dispatchEventQueue_def)

lemma handleCustomEvent_schedule:
  assumes "now w - lastEventDispatch w < eventDispatchDelay (opts w)"
    and "eventDispatchTimer w = None"
  shows "handleCustomEvent content w =
         w\<lparr>eventQueue := eventQueue w @ [content],
           timers := timers w @
             [\<lparr>tid = nextTimerId w,
               due = now w + max 0 (eventDispatchDelay (opts w) - (now w - lastEventDispatch w)),
               cb = EventDispatch\<rparr>],
           nextTimerId := Suc (nextTimerId w),
           eventDispatchTimer := Some (nextTimerId w)\<rparr>"
  using assms by (simp add: handleCustomEvent_def Let_def setTimeout_def)

lemma handleCustomEvent_pending:
  assumes "now w - lastEventDispatch w < eventDispatchDelay (opts w)"
    and "eventDispatchTimer w \<noteq> None"
  shows "handleCustomEvent content w = w\<lparr>eventQueue := eventQueue w @ [content]\<rparr>"
  using assms by (auto simp: handleCustomEvent_def Let_def)

lemma fire_absent:
  "find (\<lambda>t. tid t = i) (timers w) = None \<Longrightarrow> fire i w = w"
  by (simp add: fire_def)

lemma fire_early:
  "find (\<lambda>t. tid t = i) (timers w) = Some t \<Longrightarrow> now w < due t \<Longrightarrow> fire i w = w"
  by (simp add: fire_def)

lemma fire_state:
  assumes "find (\<lambda>t. tid t = i) (timers w) = Some t" and "due t \<le> now w"
    and "cb t = StateDispatch st"
  shows "fire i w =
         w\<lparr>timers := filter (\<lambda>t. tid t \<noteq> i) (timers w),
           stateDispatchTimer := None,
           lastSharedState := Some st,
           emitted := emitted w @ [state_message (opts w) st]\<rparr>"
  using assms by (simp add: fire_def dispatchStateChange_def)

lemma fire_event:
  assumes "find (\<lambda>t. tid t = i) (timers w) = Some t" and "due t \<le> now w"
    and "cb t = EventDispatch"
  shows "fire i w =
         dispatchEventQueue
           (w\<lparr>timers := filter (\<lambda>t. tid t \<noteq> i) (timers w), eventDispatchTimer := None\<rparr>)"
  using assms by (simp add: fire_def)

lemma opts_step [simp]: "opts (step w e) = opts w"
proof (cases e)
  case LocalChange
  then show ?thesis
    by (auto simp: handleStateChange_def Let_def dispatchStateChange_def setTimeout_def
        clearTimeout_def split: option.splits)
next
  case (CustomEvent content)
  then show ?thesis
    by (auto simp: handleCustomEvent_def Let_def dispatchEventQueue_def setTimeout_def)
next
  case (Receive data)
  then show ?thesis
    by (auto simp: handleReceivedMessage_def Let_def split: option.splits)
next
  case (Fire i)
  show ?thesis
  proof (cases "find (\<lambda>t. tid t = i) (timers w)")
    case None
    with Fire show ?thesis by (simp add: fire_def)
  next
    case (Some t)
    with Fire show ?thesis
      by (cases "cb t") (auto simp: fire_def dispatchStateChange_def dispatchEventQueue_def)
  qed
qed simp_all

lemma now_step: "now (step w e) = now w + elapsed [e]"
proof (cases e)
  case LocalChange
  then show ?thesis
    by (auto simp: handleStateChange_def Let_def dispatchStateChange_def setTimeout_def
        clearTimeout_def split: option.splits)
next
  case (CustomEvent content)
  then show ?thesis
    by (auto simp: handleCustomEvent_def Let_def dispatchEventQueue_def setTimeout_def)
next
  case (Receive data)
  then show ?thesis
    by (auto simp: handleReceivedMessage_def Let_def split: option.splits)
next
  case (Fire i)
  show ?thesis
  proof (cases "find (\<lambda>t. tid t = i) (timers w)")
    case None
    with Fire show ?thesis by (simp add: fire_def)
  next
    case (Some t)
    with Fire show ?thesis
      by (cases "cb t") (auto simp: fire_def dispatchStateChange_def dispatchEventQueue_def)
  qed
qed simp_all

lemma elapsed_Cons: "elapsed (e # evs) = elapsed [e] + elapsed evs"
  by (cases e) simp_all

lemma opts_run [simp]: "opts (run w evs) = opts w"
  by (induction evs arbitrary: w) simp_all

lemma now_run: "now (run w evs) = now w + elapsed evs"
proof (induction evs arbitrary: w)
  case Nil
  show ?case by simp
next
  case (Cons e evs)
  have "now (run w (e # evs)) = now (step w e) + elapsed evs"
    using Cons.IH [of "step w e"] by simp
  also have "\<dots> = now w + elapsed [e] + elapsed evs"
    by (simp only: now_step)
  finally show ?case
    using elapsed_Cons [of e evs] by simp
qed

section \<open>Echo suppression\<close>

lemma lastRemoteStateChange_step:
  "lastRemoteStateChange (step w e) = lastRemoteStateChange w \<or>
   lastRemoteStateChange (step w e) = now w"
proof (cases e)
  case LocalChange
  then show ?thesis
    by (auto simp: handleStateChange_def Let_def dispatchStateChange_def setTimeout_def
        clearTimeout_def split: option.splits)
next
  case (CustomEvent content)
  then show ?thesis
    by (auto simp: handleCustomEvent_def Let_def dispatchEventQueue_def setTimeout_def)
next
  case (Receive data)
  then show ?thesis
    by (auto simp: handleReceivedMessage_def Let_def split: option.splits)
next
  case (Fire i)
  show ?thesis
  proof (cases "find (\<lambda>t. tid t = i) (timers w)")
    case None
    with Fire show ?thesis by (simp add: fire_def)
  next
    case (Some t)
    with Fire show ?thesis
      by (cases "cb t") (auto simp: fire_def dispatchStateChange_def dispatchEventQueue_def)
  qed
qed simp_all

lemma lastRemoteStateChange_run:
  assumes "T \<le> lastRemoteStateChange w" and "T \<le> now w"
  shows "T \<le> lastRemoteStateChange (run w evs)"
  using assms
proof (induction evs arbitrary: w)
  case Nil
  then show ?case by simp
next
  case (Cons e evs)
  have "T \<le> lastRemoteStateChange (step w e)"
    using lastRemoteStateChange_step [of w e] Cons.prems by auto
  moreover have "T \<le> now (step w e)"
    using now_step [of w e] elapsed_nonneg [of "[e]"] Cons.prems by simp
  ultimately show ?case
    using Cons.IH [of "step w e"] by simp
qed

lemma bc_local_change_after_remote:
  assumes "msg_socketId data = bc_socketId (bc_opts v)" and "msg_state data = Some st"
  shows "bc_emitted (bc_handleStateChange ((bc_handleReceivedMessage data v)\<lparr>bc_deckState := d\<rparr>)) =
         (if bc_isEquivalent d st then bc_emitted v
          else bc_emitted v @
            [\<lparr>msg_secret = bc_secret (bc_opts v), msg_socketId = bc_socketId (bc_opts v),
              msg_state = Some d, msg_events = None\<rparr>])"
  using assms
  by (cases "msg_events data")
    (simp_all add: bc_handleReceivedMessage_def bc_handleStateChange_def Let_def)

text \<open>
  C3, as stated, fails for \<^verbatim>\<open>broadcast.js\<close>, whose \<open>handleStateChange\<close>
  has no test of time. Slide 5 arrives from the channel and is applied; the user
  moves on to slide 7 and the deck notifies the plugin, with no time passed: the
  call sends slide 7 at once.
\<close>

theorem bc_local_change_after_remote_published:
  "msg_socketId (remote_state ''main'' (slide 5)) = bc_socketId (bc_opts bc_session) \<and>
   bc_deckState (bc_handleReceivedMessage (remote_state ''main'' (slide 5)) bc_session) = slide 5 \<and>
   lastMsgState (bc_handleReceivedMessage (remote_state ''main'' (slide 5)) bc_session) =
     Some (slide 5) \<and>
   bc_emitted (bc_handleReceivedMessage (remote_state ''main'' (slide 5)) bc_session) = [] \<and>
   bc_emitted (bc_handleStateChange
     ((bc_handleReceivedMessage (remote_state ''main'' (slide 5)) bc_session)
        \<lparr>bc_deckState := slide 7\<rparr>)) =
     [\<lparr>msg_secret = JStr ''s3cret'', msg_socketId = JStr ''main'',
       msg_state = Some (slide 7), msg_events = None\<rparr>]"
  by code_simp

text \<open>
  C3, amended: in the variant that has \<open>remoteStateChangeBlackout\<close>, a
  message of the plugin's own channel that carries a state is applied at the
  time \<open>now w\<close>. Whatever happens next (changes of the deck, other calls,
  timeouts, further messages), as long as less than
  \<open>remoteStateChangeBlackout\<close> has elapsed, a call of
  \<open>handleStateChange\<close> changes nothing: it sends no message and sets no
  timeout, whether or not the state of the deck differs from the last shared one.
  \<^verbatim>\<open>broadcast.js\<close> has no blackout: there, a call after such a message
  sends the state \<open>d\<close> of the deck at once unless \<open>d\<close> is equivalent to the
  state that was applied.
\<close>

theorem blackout_suppresses_local_change:
  assumes "msg_socketId data = socketId (opts w)"
    and "msg_state data = Some st"
    and "elapsed evs < remoteStateChangeBlackout (opts w)"
  shows "handleStateChange (run (handleReceivedMessage data w) evs) =
           run (handleReceivedMessage data w) evs \<and>
         (msg_socketId data = bc_socketId (bc_opts v) \<longrightarrow>
            bc_emitted (bc_handleStateChange
              ((bc_handleReceivedMessage data v)\<lparr>bc_deckState := d\<rparr>)) =
            (if bc_isEquivalent d st then bc_emitted v
             else bc_emitted v @
               [\<lparr>msg_secret = bc_secret (bc_opts v), msg_socketId = bc_socketId (bc_opts v),
                 msg_state = Some d, msg_events = None\<rparr>]))"
proof (intro conjI impI)
  let ?w1 = "handleReceivedMessage data w"
  let ?w2 = "run ?w1 evs"
  have w1: "lastRemoteStateChange ?w1 = now w" "now ?w1 = now w" "opts ?w1 = opts w"
    using assms(1,2) by (auto simp: handleReceivedMessage_def Let_def split: option.splits)
  have "now w \<le> lastRemoteStateChange ?w2"
    by (rule lastRemoteStateChange_run) (simp_all add: w1)
  moreover have "now ?w2 = now w + elapsed evs"
    by (simp add: now_run w1)
  ultimately have "now ?w2 - lastRemoteStateChange ?w2 < remoteStateChangeBlackout (opts ?w2)"
    using assms(3) by (simp add: w1)
  then have "suppressed ?w2"
    by (simp add: suppressed_def)
  then show "handleStateChange ?w2 = ?w2"
    by (rule handleStateChange_suppressed)
next
  assume "msg_socketId data = bc_socketId (bc_opts v)"
  then show "bc_emitted (bc_handleStateChange
      ((bc_handleReceivedMessage data v)\<lparr>bc_deckState := d\<rparr>)) =
      (if bc_isEquivalent d st then bc_emitted v
       else bc_emitted v @
         [\<lparr>msg_secret = bc_secret (bc_opts v), msg_socketId = bc_socketId (bc_opts v),
           msg_state = Some d, msg_events = None\<rparr>])"
    using assms(2) by (rule bc_local_change_after_remote)
qed

text \<open>
  In the session, slide 5 arrives from the channel; the user moves on to slide 7
  and 1999 ms have passed: the call still does nothing, although the deck is
  not in the state last shared. In \<^verbatim>\<open>broadcast.js\<close> the call sends slide 7.
\<close>

theorem blackout_suppresses_local_change_witness:
  "msg_socketId (remote_state ''main'' (slide 5)) = socketId (opts session) \<and>
   msg_state (remote_state ''main'' (slide 5)) = Some (slide 5) \<and>
   elapsed [DeckChange (slide 7), Tick 1999] < remoteStateChangeBlackout (opts session) \<and>
   msg_socketId (remote_state ''main'' (slide 5)) = bc_socketId (bc_opts bc_session) \<and>
   lastSharedState (run (handleReceivedMessage (remote_state ''main'' (slide 5)) session)
     [DeckChange (slide 7), Tick 1999]) = Some (slide 5) \<and>
   deckState (run (handleReceivedMessage (remote_state ''main'' (slide 5)) session)
     [DeckChange (slide 7), Tick 1999]) = slide 7 \<and>
   \<not> isEquivalent (slide 7) (slide 5) \<and>
   handleStateChange
     (run (handleReceivedMessage (remote_state ''main'' (slide 5)) session)
        [DeckChange (slide 7), Tick 1999]) =
   run (handleReceivedMessage (remote_state ''main'' (slide 5)) session)
     [DeckChange (slide 7), Tick 1999] \<and>
   bc_emitted (bc_handleStateChange
     ((bc_handleReceivedMessage (remote_state ''main'' (slide 5)) bc_session)
        \<lparr>bc_deckState := slide 7\<rparr>)) =
     [\<lparr>msg_secret = JStr ''s3cret'', msg_socketId = JStr ''main'',
       msg_state = Some (slide 7), msg_events = None\<rparr>]"
proof -
  have h1: "msg_socketId (remote_state ''main'' (slide 5)) = socketId (opts session)"
    by (simp add: remote_state_def session_def initial_def main_options_def)
  have h2: "msg_state (remote_state ''main'' (slide 5)) = Some (slide 5)"
    by (simp add: remote_state_def)
  have h3: "elapsed [DeckChange (slide 7), Tick 1999] < remoteStateChangeBlackout (opts session)"
    by (simp add: session_def initial_def main_options_def default_options_def)
  have h4: "msg_socketId (remote_state ''main'' (slide 5)) = bc_socketId (bc_opts bc_session)"
    by (simp add: remote_state_def bc_session_def)
  have d: "lastSharedState (run (handleReceivedMessage (remote_state ''main'' (slide 5)) session)
        [DeckChange (slide 7), Tick 1999]) = Some (slide 5)"
      "deckState (run (handleReceivedMessage (remote_state ''main'' (slide 5)) session)
        [DeckChange (slide 7), Tick 1999]) = slide 7"
      "\<not> isEquivalent (slide 7) (slide 5)"
    by code_simp+
  have b: "\<not> bc_isEquivalent (slide 7) (slide 5)"
      "bc_emitted bc_session = []"
      "bc_secret (bc_opts bc_session) = JStr ''s3cret''"
      "bc_socketId (bc_opts bc_session) = JStr ''main''"
    by code_simp+
  from blackout_suppresses_local_change [OF h1 h2 h3, of bc_session "slide 7"] h4
  have "handleStateChange
     (run (handleReceivedMessage (remote_state ''main'' (slide 5)) session)
        [DeckChange (slide 7), Tick 1999]) =
     run (handleReceivedMessage (remote_state ''main'' (slide 5)) session)
       [DeckChange (slide 7), Tick 1999]"
    and "bc_emitted (bc_handleStateChange
       ((bc_handleReceivedMessage (remote_state ''main'' (slide 5)) bc_session)
          \<lparr>bc_deckState := slide 7\<rparr>)) =
       [\<lparr>msg_secret = JStr ''s3cret'', msg_socketId = JStr ''main'',
         msg_state = Some (slide 7), msg_events = None\<rparr>]"
    by (simp_all add: b)
  with h1 h2 h3 h4 d show ?thesis by blast
qed

section \<open>Identity filtering\<close>

lemma run_append: "run w (evs @ evs') = run (run w evs) evs'"
  by (simp add: run_def)

text \<open>
  C6: a message whose \<open>socketId\<close> is not strictly equal to the configured one
  leaves everything as it was, in both variants: the state of the deck, the
  \<open>received\<close> events dispatched so far, the last shared state and the time of
  the last remote change are those of before. A session that receives such a
  message at any moment goes on as if it had not.
\<close>

theorem foreign_message_discarded:
  "(msg_socketId data \<noteq> socketId (opts w) \<longrightarrow>
      handleReceivedMessage data w = w \<and>
      deckState (handleReceivedMessage data w) = deckState w \<and>
      received (handleReceivedMessage data w) = received w \<and>
      lastSharedState (handleReceivedMessage data w) = lastSharedState w \<and>
      lastRemoteStateChange (handleReceivedMessage data w) = lastRemoteStateChange w \<and>
      run w (evs @ Receive data # evs') = run w (evs @ evs')) \<and>
   (msg_socketId data \<noteq> bc_socketId (bc_opts v) \<longrightarrow>
      bc_handleReceivedMessage data v = v)"
proof (intro conjI impI)
  assume foreign: "msg_socketId data \<noteq> socketId (opts w)"
  then show same: "handleReceivedMessage data w = w"
    by (simp add: handleReceivedMessage_def)
  then show "deckState (handleReceivedMessage data w) = deckState w"
    and "received (handleReceivedMessage data w) = received w"
    and "lastSharedState (handleReceivedMessage data w) = lastSharedState w"
    and "lastRemoteStateChange (handleReceivedMessage data w) = lastRemoteStateChange w"
    by simp_all
  from foreign have "msg_socketId data \<noteq> socketId (opts (run w evs))"
    by simp
  then have "handleReceivedMessage data (run w evs) = run w evs"
    by (simp add: handleReceivedMessage_def)
  then have "run (run w evs) (Receive data # evs') = run (run w evs) evs'"
    by simp
  then show "run w (evs @ Receive data # evs') = run w (evs @ evs')"
    by (simp only: run_append)
next
  assume "msg_socketId data \<noteq> bc_socketId (bc_opts v)"
  then show "bc_handleReceivedMessage data v = v"
    by (simp add: bc_handleReceivedMessage_def)
qed

text \<open>
  A message of the channel \<open>other\<close> with a state and two events reaches the
  session on \<open>main\<close>.
\<close>

theorem foreign_message_discarded_witness:
  "msg_socketId ((remote_state ''other'' (slide 5))\<lparr>msg_events := Some [JStr ''e1'', JStr ''e2'']\<rparr>)
     \<noteq> socketId (opts session) \<and>
   handleReceivedMessage
     ((remote_state ''other'' (slide 5))\<lparr>msg_events := Some [JStr ''e1'', JStr ''e2'']\<rparr>)
     session = session \<and>
   bc_handleReceivedMessage
     ((remote_state ''other'' (slide 5))\<lparr>msg_events := Some [JStr ''e1'', JStr ''e2'']\<rparr>)
     bc_session = bc_session \<and>
   deckState (handleReceivedMessage
     ((remote_state ''main'' (slide 5))\<lparr>msg_events := Some [JStr ''e1'', JStr ''e2'']\<rparr>)
     session) = slide 5 \<and>
   received (handleReceivedMessage
     ((remote_state ''main'' (slide 5))\<lparr>msg_events := Some [JStr ''e1'', JStr ''e2'']\<rparr>)
     session) = [JStr ''e1'', JStr ''e2'']"
proof -
  let ?m = "(remote_state ''other'' (slide 5))\<lparr>msg_events := Some [JStr ''e1'', JStr ''e2'']\<rparr>"
  let ?v = "bc_session"
  have h: "msg_socketId ?m \<noteq> socketId (opts session)"
    by (simp add: remote_state_def session_def initial_def main_options_def)
  have h': "msg_socketId ?m \<noteq> bc_socketId (bc_opts ?v)"
    by (simp add: remote_state_def bc_session_def)
  have own: "deckState (handleReceivedMessage
       ((remote_state ''main'' (slide 5))\<lparr>msg_events := Some [JStr ''e1'', JStr ''e2'']\<rparr>)
       session) = slide 5"
      "received (handleReceivedMessage
       ((remote_state ''main'' (slide 5))\<lparr>msg_events := Some [JStr ''e1'', JStr ''e2'']\<rparr>)
       session) = [JStr ''e1'', JStr ''e2'']"
    by code_simp+
  from h h' own foreign_message_discarded [of ?m session "[]" "[]" ?v]
  show ?thesis by simp
qed

section \<open>Pending timeouts\<close>

lemma length_handle_ids: "length (handle_ids h) \<le> 1"
  by (cases h) (simp_all add: handle_ids_def)

lemma filter_out_all:
  assumes "map tid (filter P ts) = [i]"
  shows "filter P (filter (\<lambda>t. tid t \<noteq> i) ts) = []"
proof -
  have "\<not> (tid x \<noteq> i \<and> P x)" if "x \<in> set ts" for x
  proof (cases "P x")
    case True
    with that have "tid x \<in> set (map tid (filter P ts))" by auto
    then have "tid x \<in> set [i]" by (simp only: assms)
    then show ?thesis by simp
  qed simp
  then show ?thesis
    by (simp add: filter_empty_conv)
qed

lemma timer_kind: "is_event_timer t = (\<not> is_state_timer t)"
  by (cases "cb t") (simp_all add: is_state_timer_def is_event_timer_def)

lemma map_tid_singleton:
  assumes "map tid (filter P ts) = [i]"
  obtains t where "t \<in> set ts" and "P t" and "tid t = i"
proof -
  have "i \<in> set (map tid (filter P ts))" by (simp only: assms) simp
  then obtain t where "t \<in> set (filter P ts)" and "tid t = i" by auto
  then have "t \<in> set ts" and "P t" and "tid t = i" by simp_all
  then show ?thesis by (rule that)
qed

lemma filter_keep:
  assumes "distinct (map tid ts)" and "t0 \<in> set ts" and "tid t0 = i" and "\<not> Q t0"
  shows "filter Q (filter (\<lambda>t. tid t \<noteq> i) ts) = filter Q ts"
proof -
  have inj: "inj_on tid (set ts)"
    using assms(1) by (simp add: distinct_map)
  have "tid x \<noteq> i" if "x \<in> set ts" and "Q x" for x
  proof
    assume "tid x = i"
    with assms(2,3) that(1) inj have "x = t0"
      by (auto dest: inj_onD)
    with that(2) assms(4) show False by simp
  qed
  then have "filter (\<lambda>x. tid x \<noteq> i \<and> Q x) ts = filter Q ts"
    by (auto intro: filter_cong)
  then show ?thesis
    by (simp add: conj_commute)
qed

lemma distinct_tid_filter:
  "distinct (map tid ts) \<Longrightarrow> distinct (map tid (filter Q ts))"
  by (rule distinct_map_filter)

lemma handle_ids_member:
  assumes "map tid (filter P ts) = handle_ids h" and "t \<in> set ts" and "P t"
  shows "h = Some (tid t)" and "map tid (filter P ts) = [tid t]"
proof -
  from assms(2,3) have "tid t \<in> set (map tid (filter P ts))" by auto
  with assms(1) show "h = Some (tid t)"
    by (cases h) (simp_all add: handle_ids_def)
  with assms(1) show "map tid (filter P ts) = [tid t]"
    by (simp add: handle_ids_def)
qed

lemma timers_wf_initial: "timers_wf (initial os deck t0)"
  by (simp add: timers_wf_def initial_def handle_ids_def)

lemma timers_wf_remove:
  assumes wf: "timers_wf w" and t: "t \<in> set (timers w)"
    and w': "timers w' = filter (\<lambda>x. tid x \<noteq> tid t) (timers w)"
      "nextTimerId w' = nextTimerId w"
      "stateDispatchTimer w' = (if is_state_timer t then None else stateDispatchTimer w)"
      "eventDispatchTimer w' = (if is_state_timer t then eventDispatchTimer w else None)"
  shows "timers_wf w'"
proof -
  let ?ts = "timers w"
  let ?ts' = "filter (\<lambda>x. tid x \<noteq> tid t) ?ts"
  from wf have d: "distinct (map tid ?ts)"
    and b: "list_all (\<lambda>t. tid t < nextTimerId w) ?ts"
    and s: "map tid (filter is_state_timer ?ts) = handle_ids (stateDispatchTimer w)"
    and e: "map tid (filter is_event_timer ?ts) = handle_ids (eventDispatchTimer w)"
    by (simp_all add: timers_wf_def)
  have d': "distinct (map tid ?ts')"
    using d by (rule distinct_tid_filter)
  have b': "list_all (\<lambda>t. tid t < nextTimerId w) ?ts'"
    using b by (auto simp: list_all_iff)
  show ?thesis
  proof (cases "is_state_timer t")
    case True
    then have ne: "\<not> is_event_timer t"
      by (simp add: timer_kind)
    have "map tid (filter is_state_timer ?ts) = [tid t]"
      using s t True by (rule handle_ids_member(2))
    then have "filter is_state_timer ?ts' = []"
      by (rule filter_out_all)
    moreover have "filter is_event_timer ?ts' = filter is_event_timer ?ts"
      using d t refl ne by (rule filter_keep)
    ultimately show ?thesis
      using d' b' e True w' by (simp add: timers_wf_def handle_ids_def)
  next
    case False
    then have ev: "is_event_timer t"
      by (simp add: timer_kind)
    have "map tid (filter is_event_timer ?ts) = [tid t]"
      using e t ev by (rule handle_ids_member(2))
    then have "filter is_event_timer ?ts' = []"
      by (rule filter_out_all)
    moreover have "filter is_state_timer ?ts' = filter is_state_timer ?ts"
      using d t refl False by (rule filter_keep)
    ultimately show ?thesis
      using d' b' s False w' by (simp add: timers_wf_def handle_ids_def)
  qed
qed

lemma timers_wf_add_state:
  assumes wf: "timers_wf w" and none: "stateDispatchTimer w = None"
    and w': "timers w' = timers w @ [\<lparr>tid = nextTimerId w, due = x, cb = StateDispatch st\<rparr>]"
      "nextTimerId w' = Suc (nextTimerId w)"
      "stateDispatchTimer w' = Some (nextTimerId w)"
      "eventDispatchTimer w' = eventDispatchTimer w"
  shows "timers_wf w'"
proof -
  let ?ts = "timers w"
  from wf have d: "distinct (map tid ?ts)"
    and b: "list_all (\<lambda>t. tid t < nextTimerId w) ?ts"
    and s: "map tid (filter is_state_timer ?ts) = handle_ids (stateDispatchTimer w)"
    and e: "map tid (filter is_event_timer ?ts) = handle_ids (eventDispatchTimer w)"
    by (simp_all add: timers_wf_def)
  have fresh: "nextTimerId w \<notin> tid ` set ?ts"
    using b by (auto simp: list_all_iff)
  have b': "list_all (\<lambda>t. tid t < Suc (nextTimerId w)) ?ts"
    using b by (auto simp: list_all_iff)
  from none s have "filter is_state_timer ?ts = []"
    by (simp add: handle_ids_def)
  with d fresh b' e w' show ?thesis
    by (simp add: timers_wf_def handle_ids_def is_state_timer_def is_event_timer_def)
qed

lemma timers_wf_add_event:
  assumes wf: "timers_wf w" and none: "eventDispatchTimer w = None"
    and w': "timers w' = timers w @ [\<lparr>tid = nextTimerId w, due = x, cb = EventDispatch\<rparr>]"
      "nextTimerId w' = Suc (nextTimerId w)"
      "stateDispatchTimer w' = stateDispatchTimer w"
      "eventDispatchTimer w' = Some (nextTimerId w)"
  shows "timers_wf w'"
proof -
  let ?ts = "timers w"
  from wf have d: "distinct (map tid ?ts)"
    and b: "list_all (\<lambda>t. tid t < nextTimerId w) ?ts"
    and s: "map tid (filter is_state_timer ?ts) = handle_ids (stateDispatchTimer w)"
    and e: "map tid (filter is_event_timer ?ts) = handle_ids (eventDispatchTimer w)"
    by (simp_all add: timers_wf_def)
  have fresh: "nextTimerId w \<notin> tid ` set ?ts"
    using b by (auto simp: list_all_iff)
  have b': "list_all (\<lambda>t. tid t < Suc (nextTimerId w)) ?ts"
    using b by (auto simp: list_all_iff)
  from none e have "filter is_event_timer ?ts = []"
    by (simp add: handle_ids_def)
  with d fresh b' s w' show ?thesis
    by (simp add: timers_wf_def handle_ids_def is_state_timer_def is_event_timer_def)
qed

lemma timers_wf_handleStateChange:
  assumes wf: "timers_wf w"
  shows "timers_wf (handleStateChange w)"
proof -
  consider (noop) "suppressed w"
    | (immediate) "\<not> suppressed w" "stateDispatchDelay (opts w) \<le> now w - lastStateChange w"
    | (schedule) "\<not> suppressed w" "now w - lastStateChange w < stateDispatchDelay (opts w)"
    by linarith
  then show ?thesis
  proof cases
    case noop
    then show ?thesis using wf by (simp add: handleStateChange_suppressed)
  next
    case immediate
    then show ?thesis
      using wf by (simp add: handleStateChange_immediate timers_wf_def)
  next
    case schedule
    let ?w1 = "case stateDispatchTimer w of None \<Rightarrow> w | Some i \<Rightarrow> clearTimeout i w"
    have wf1: "timers_wf (?w1\<lparr>stateDispatchTimer := None\<rparr>)"
    proof (cases "stateDispatchTimer w")
      case None
      with wf show ?thesis by (simp add: timers_wf_def)
    next
      case (Some i)
      with wf have "map tid (filter is_state_timer (timers w)) = [i]"
        by (simp add: timers_wf_def handle_ids_def)
      then obtain t where t: "t \<in> set (timers w)" "is_state_timer t" "tid t = i"
        by (rule map_tid_singleton)
      show ?thesis
        using wf t(1)
      proof (rule timers_wf_remove)
      qed (simp_all add: Some clearTimeout_def t)
    qed
    let ?w0 = "?w1\<lparr>stateDispatchTimer := None\<rparr>"
    have eq: "handleStateChange w =
        ?w0\<lparr>timers := timers ?w0 @
                [\<lparr>tid = nextTimerId ?w0, due = now w + max 0 (stateDispatchDelay (opts w)),
                  cb = StateDispatch (deckState w)\<rparr>],
             nextTimerId := Suc (nextTimerId ?w0),
             stateDispatchTimer := Some (nextTimerId ?w0),
             lastStateChange := now w\<rparr>"
      using schedule
      by (auto simp: handleStateChange_schedule clearTimeout_def split: option.splits)
    show ?thesis
      unfolding eq using wf1
    proof (rule timers_wf_add_state)
    qed simp_all
  qed
qed

lemma timers_wf_dispatchEventQueue:
  "timers_wf w \<Longrightarrow> timers_wf (dispatchEventQueue w)"
  by (simp add: dispatchEventQueue_def timers_wf_def)

lemma timers_wf_handleCustomEvent:
  assumes wf: "timers_wf w"
  shows "timers_wf (handleCustomEvent content w)"
proof -
  consider (immediate) "eventDispatchDelay (opts w) \<le> now w - lastEventDispatch w"
    | (schedule) "now w - lastEventDispatch w < eventDispatchDelay (opts w)"
        "eventDispatchTimer w = None"
    | (pending) "now w - lastEventDispatch w < eventDispatchDelay (opts w)"
        "eventDispatchTimer w \<noteq> None"
    by linarith
  then show ?thesis
  proof cases
    case immediate
    then show ?thesis
      using wf by (simp add: handleCustomEvent_immediate timers_wf_def)
  next
    case schedule
    show ?thesis
      unfolding handleCustomEvent_schedule [OF schedule] using wf
    proof (rule timers_wf_add_event)
    qed (simp_all add: schedule)
  next
    case pending
    then show ?thesis
      using wf by (simp add: handleCustomEvent_pending timers_wf_def)
  qed
qed

lemma timers_wf_fire:
  assumes wf: "timers_wf w"
  shows "timers_wf (fire i w)"
proof (cases "find (\<lambda>t. tid t = i) (timers w)")
  case None
  with wf show ?thesis by (simp add: fire_absent)
next
  case (Some t)
  then have t: "t \<in> set (timers w)" "tid t = i"
    by (auto simp: find_Some_iff)
  show ?thesis
  proof (cases "due t \<le> now w")
    case False
    with Some wf show ?thesis by (simp add: fire_early)
  next
    case True
    show ?thesis
    proof (cases "cb t")
      case (StateDispatch st)
      show ?thesis
        unfolding fire_state [OF Some True StateDispatch] using wf t(1)
      proof (rule timers_wf_remove)
      qed (simp_all add: t StateDispatch is_state_timer_def)
    next
      case EventDispatch
      have "timers_wf (w\<lparr>timers := filter (\<lambda>t. tid t \<noteq> i) (timers w),
                         eventDispatchTimer := None\<rparr>)"
        using wf t(1)
      proof (rule timers_wf_remove)
      qed (simp_all add: t EventDispatch is_state_timer_def)
      then show ?thesis
        unfolding fire_event [OF Some True EventDispatch]
        by (rule timers_wf_dispatchEventQueue)
    qed
  qed
qed

lemma timers_wf_step: "timers_wf w \<Longrightarrow> timers_wf (step w e)"
proof (cases e)
  case (Receive data)
  moreover assume "timers_wf w"
  ultimately show ?thesis
    by (auto simp: handleReceivedMessage_def Let_def timers_wf_def split: option.splits)
qed (simp_all add: timers_wf_handleStateChange timers_wf_handleCustomEvent timers_wf_fire,
     simp_all add: timers_wf_def)

lemma timers_wf_run_from: "timers_wf w \<Longrightarrow> timers_wf (run w evs)"
  by (induction evs arbitrary: w) (simp_all add: timers_wf_step)

lemma timers_wf_run: "timers_wf (run (initial os deck t0) evs)"
  by (rule timers_wf_run_from) (rule timers_wf_initial)

text \<open>
  C8: whatever has happened since the plugin was created, at most one timeout of
  the state publisher and at most one timeout of the event batcher are pending,
  and each is the one whose handle the plugin holds in \<open>stateDispatchTimer\<close>
  or \<open>eventDispatchTimer\<close>: \<open>handleStateChange\<close> clears the timeout of
  its handle before it sets a new one, \<open>handleCustomEvent\<close> sets one only when
  it holds no handle, and a callback drops the handle when it runs.
\<close>

theorem at_most_one_pending_timer:
  "length (filter is_state_timer (timers (run (initial os deck t0) evs))) \<le> 1 \<and>
   length (filter is_event_timer (timers (run (initial os deck t0) evs))) \<le> 1 \<and>
   map tid (filter is_state_timer (timers (run (initial os deck t0) evs))) =
     handle_ids (stateDispatchTimer (run (initial os deck t0) evs)) \<and>
   map tid (filter is_event_timer (timers (run (initial os deck t0) evs))) =
     handle_ids (eventDispatchTimer (run (initial os deck t0) evs))"
proof -
  let ?w = "run (initial os deck t0) evs"
  have wf: "timers_wf ?w" by (rule timers_wf_run)
  then have s: "map tid (filter is_state_timer (timers ?w)) = handle_ids (stateDispatchTimer ?w)"
    and e: "map tid (filter is_event_timer (timers ?w)) = handle_ids (eventDispatchTimer ?w)"
    by (simp_all add: timers_wf_def)
  have "length (filter is_state_timer (timers ?w)) =
      length (map tid (filter is_state_timer (timers ?w)))"
    by simp
  also have "\<dots> \<le> 1"
    unfolding s by (rule length_handle_ids)
  finally have ls: "length (filter is_state_timer (timers ?w)) \<le> 1" .
  have "length (filter is_event_timer (timers ?w)) =
      length (map tid (filter is_event_timer (timers ?w)))"
    by simp
  also have "\<dots> \<le> 1"
    unfolding e by (rule length_handle_ids)
  finally have le: "length (filter is_event_timer (timers ?w)) \<le> 1" .
  from ls le s e show ?thesis by simp
qed

text \<open>
  In the session, three calls in a row that each find the deck changed and the
  delay not yet over leave one state timeout, the third; two custom events
  leave one timeout of the batcher.
\<close>

theorem at_most_one_pending_timer_witness:
  "map tid (timers (run (initial main_options (slide 0) 10000)
     (burst @ [Tick 10, DeckChange (slide 2), LocalChange, Tick 10, DeckChange (slide 3),
               LocalChange, CustomEvent (JNum 1), Tick 10, CustomEvent (JNum 2),
               CustomEvent (JNum 3)]))) = [3, 4] \<and>
   length (filter is_state_timer (timers (run (initial main_options (slide 0) 10000)
     (burst @ [Tick 10, DeckChange (slide 2), LocalChange, Tick 10, DeckChange (slide 3),
               LocalChange, CustomEvent (JNum 1), Tick 10, CustomEvent (JNum 2),
               CustomEvent (JNum 3)])))) \<le> 1"
proof -
  have "map tid (timers (run (initial main_options (slide 0) 10000)
     (burst @ [Tick 10, DeckChange (slide 2), LocalChange, Tick 10, DeckChange (slide 3),
               LocalChange, CustomEvent (JNum 1), Tick 10, CustomEvent (JNum 2),
               CustomEvent (JNum 3)]))) = [3, 4]"
    by code_simp
  with at_most_one_pending_timer [of main_options "slide 0" 10000
     "burst @ [Tick 10, DeckChange (slide 2), LocalChange, Tick 10, DeckChange (slide 3),
               LocalChange, CustomEvent (JNum 1), Tick 10, CustomEvent (JNum 2),
               CustomEvent (JNum 3)]"]
  show ?thesis by blast
qed

section \<open>The trailing publish\<close>

lemma handleReceivedMessage_frame:
  "timers (handleReceivedMessage data w) = timers w \<and>
   stateDispatchTimer (handleReceivedMessage data w) = stateDispatchTimer w \<and>
   emitted (handleReceivedMessage data w) = emitted w \<and>
   opts (handleReceivedMessage data w) = opts w \<and>
   now (handleReceivedMessage data w) = now w"
  by (auto simp: handleReceivedMessage_def Let_def split: option.splits)

text \<open>
  C10: a pending timeout of the state publisher carries the state \<open>st\<close> of the
  call that set it. A message received afterwards leaves the timeout and its
  handle in place, and once the delay has passed the callback sends one more
  message, with the secret and the \<open>socketId\<close> of the plugin and \<open>st\<close> as
  its state:
  there is no test of the blackout or of the last shared state on that path, so
  the message goes out also when a remote state has just been applied and when
  it is the very state that was applied.
\<close>

theorem trailing_publish_unconditional:
  assumes "find (\<lambda>t. tid t = i) (timers w) = Some t"
    and "cb t = StateDispatch st"
    and "due t \<le> now w + int d"
  shows "timers (handleReceivedMessage data w) = timers w \<and>
         stateDispatchTimer (handleReceivedMessage data w) = stateDispatchTimer w \<and>
         emitted (run w [Receive data, Tick d, Fire i]) =
           emitted w @
             [\<lparr>msg_secret = secret (opts w), msg_socketId = socketId (opts w),
               msg_state = Some st, msg_events = None\<rparr>] \<and>
         lastSharedState (run w [Receive data, Tick d, Fire i]) = Some st \<and>
         stateDispatchTimer (run w [Receive data, Tick d, Fire i]) = None"
proof -
  let ?w2 = "(handleReceivedMessage data w)\<lparr>now := now w + int d\<rparr>"
  have w2: "run w [Receive data, Tick d, Fire i] = fire i ?w2"
    by (simp add: handleReceivedMessage_frame)
  have "find (\<lambda>t. tid t = i) (timers ?w2) = Some t"
    using assms(1) by (simp add: handleReceivedMessage_frame)
  moreover have "due t \<le> now ?w2"
    using assms(3) by simp
  ultimately have "fire i ?w2 =
      ?w2\<lparr>timers := filter (\<lambda>t. tid t \<noteq> i) (timers ?w2),
          stateDispatchTimer := None,
          lastSharedState := Some st,
          emitted := emitted ?w2 @ [state_message (opts ?w2) st]\<rparr>"
    using assms(2) by (rule fire_state)
  with w2 show ?thesis
    by (simp add: handleReceivedMessage_frame state_message_def)
qed

theorem trailing_publish_unconditional_witness:
  "find (\<lambda>t. tid t = 1) (timers (run session burst)) =
     Some \<lparr>tid = 1, due = 10600, cb = StateDispatch (slide 1)\<rparr> \<and>
   cb \<lparr>tid = 1, due = 10600, cb = StateDispatch (slide 1)\<rparr> = StateDispatch (slide 1) \<and>
   due \<lparr>tid = 1, due = 10600, cb = StateDispatch (slide 1)\<rparr> \<le> now (run session burst) + int 500 \<and>
   suppressed (run (run session burst) [Receive (remote_state ''main'' (slide 1)), Tick 500]) \<and>
   lastSharedState
     (run (run session burst) [Receive (remote_state ''main'' (slide 1)), Tick 500]) =
     Some (slide 1) \<and>
   emitted (run (run session burst) [Receive (remote_state ''main'' (slide 1)), Tick 500, Fire 1]) =
     [\<lparr>msg_secret = JStr ''s3cret'', msg_socketId = JStr ''main'',
       msg_state = Some (slide 0), msg_events = None\<rparr>,
      \<lparr>msg_secret = JStr ''s3cret'', msg_socketId = JStr ''main'',
       msg_state = Some (slide 1), msg_events = None\<rparr>]"
proof -
  have h1: "find (\<lambda>t. tid t = 1) (timers (run session burst)) =
      Some \<lparr>tid = 1, due = 10600, cb = StateDispatch (slide 1)\<rparr>"
    by code_simp
  have h2: "cb \<lparr>tid = 1, due = 10600, cb = StateDispatch (slide 1)\<rparr> = StateDispatch (slide 1)"
    by simp
  have h3: "due \<lparr>tid = 1, due = 10600, cb = StateDispatch (slide 1)\<rparr>
      \<le> now (run session burst) + int 500"
    by code_simp
  have h4: "suppressed
      (run (run session burst) [Receive (remote_state ''main'' (slide 1)), Tick 500])"
    by code_simp
  have h5: "lastSharedState
      (run (run session burst) [Receive (remote_state ''main'' (slide 1)), Tick 500]) =
      Some (slide 1)"
    by code_simp
  have e: "emitted (run session burst) =
      [\<lparr>msg_secret = JStr ''s3cret'', msg_socketId = JStr ''main'',
        msg_state = Some (slide 0), msg_events = None\<rparr>]"
    and o: "secret (opts (run session burst)) = JStr ''s3cret''"
      "socketId (opts (run session burst)) = JStr ''main''"
    by code_simp+
  from trailing_publish_unconditional [OF h1 h2 h3, of "remote_state ''main'' (slide 1)"]
  have "emitted (run (run session burst)
      [Receive (remote_state ''main'' (slide 1)), Tick 500, Fire 1]) =
      emitted (run session burst) @
        [\<lparr>msg_secret = secret (opts (run session burst)),
          msg_socketId = socketId (opts (run session burst)),
          msg_state = Some (slide 1), msg_events = None\<rparr>]"
    by blast
  then have "emitted (run (run session burst)
      [Receive (remote_state ''main'' (slide 1)), Tick 500, Fire 1]) =
      [\<lparr>msg_secret = JStr ''s3cret'', msg_socketId = JStr ''main'',
        msg_state = Some (slide 0), msg_events = None\<rparr>,
       \<lparr>msg_secret = JStr ''s3cret'', msg_socketId = JStr ''main'',
        msg_state = Some (slide 1), msg_events = None\<rparr>]"
    by (simp only: e o append.simps)
  with h1 h2 h3 h4 h5 show ?thesis by blast
qed

section \<open>What a scheduled publish sends\<close>






section \<open>The rate of state messages\<close>















section \<open>Repeated notifications of one state\<close>

text \<open>
  A call that finds the deck in a state equivalent to the last shared one does
  nothing.
\<close>

lemma handleStateChange_equivalent:
  assumes "lastSharedState w = Some l" and "isEquivalent (deckState w) l"
  shows "handleStateChange w = w"
  using assms by (simp add: handleStateChange_suppressed suppressed_def)

text \<open>
  C5 fails on this run. After the burst the deck stays on slide 1 and timeout 1,
  holding slide 1, is pending. It has not run yet 600 ms later, when the next
  call comes: that call publishes slide 1 at once, since the delay has passed,
  and leaves the timeout in place, which then publishes slide 1 again. The
  branch that publishes at once says in its comment that a pending message can
  be cleared out, and does not call \<open>clearTimeout\<close>.
\<close>

theorem unchanged_state_published_twice:
  "deckState (run session burst) = slide 1 \<and>
   deckState (run session (burst @ [Tick 600, LocalChange, Fire 1])) = slide 1 \<and>
   stateDispatchTimer (run session (burst @ [Tick 600, LocalChange])) = Some 1 \<and>
   map msg_state (emitted (run session burst)) = [Some (slide 0)] \<and>
   map msg_state (emitted (run session (burst @ [Tick 600, LocalChange]))) =
     [Some (slide 0), Some (slide 1)] \<and>
   map msg_state (emitted (run session (burst @ [Tick 600, LocalChange, Fire 1]))) =
     [Some (slide 0), Some (slide 1), Some (slide 1)]"
  by code_simp

section \<open>Batches of custom events\<close>
















section \<open>Initialisation without a channel\<close>

lemma lifecycle_inert:
  assumes "\<not> scriptRequested p" and "\<not> connectHandler p"
  shows "foldl lifecycle_step p ls = p"
proof (induction ls)
  case Nil
  show ?case by simp
next
  case (Cons l ls)
  have "lifecycle_step p l = p"
    using assms by (cases l) simp_all
  with Cons show ?case by simp
qed

text \<open>
  C9, as stated, fails for \<^verbatim>\<open>broadcast.js\<close>: its \<open>init\<close> does not look at
  \<open>socketId\<close>. With no configuration at all it asks for the socket library,
  and once that is loaded the plugin has a socket, the listeners of the
  publisher and the listener of the subscriber, on a channel \<open>undefined\<close>.
\<close>

theorem bc_init_without_socketId_active:
  "bc_socketId (bc_p_options (bc_init None bc_new_plugin)) = JUndefined \<and>
   bc_scriptRequested (bc_init None bc_new_plugin) \<and>
   bc_socket (bc_on_script_loaded False (bc_init None bc_new_plugin)) \<and>
   bc_masterSetups (bc_on_script_loaded False (bc_init None bc_new_plugin)) = 1 \<and>
   bc_clientSetups (bc_on_script_loaded False (bc_init None bc_new_plugin)) = 1"
  by (simp add: bc_init_def bc_new_plugin_def bc_default_options_def bc_on_script_loaded_def)

text \<open>
  C9, amended: in the variant whose \<open>init\<close> tests \<open>options.socketId\<close>, a
  configuration that is absent or has no \<open>socketId\<close> makes \<open>init\<close> return
  before it asks for the socket library. It returns the plugin with the merged
  options and nothing else: no socket, no handler of \<open>connect\<close>, no listener
  of the publisher or the subscriber, and no later event of the page changes
  that. In \<^verbatim>\<open>broadcast.js\<close> the library is always requested, and what is set
  up once it is loaded follows the options \<open>master\<close> and \<open>client\<close> only.
\<close>

theorem init_without_socketId_inert:
  "((case cfg of None \<Rightarrow> True | Some c \<Rightarrow> cfg_socketId c = None) \<longrightarrow>
      foldl lifecycle_step (init cfg new_plugin) ls = init cfg new_plugin \<and>
      \<not> scriptRequested (init cfg new_plugin) \<and>
      \<not> socket (init cfg new_plugin) \<and>
      \<not> connectHandler (init cfg new_plugin) \<and>
      masterSetups (init cfg new_plugin) = 0 \<and>
      clientSetups (init cfg new_plugin) = 0) \<and>
   bc_scriptRequested (bc_init bcfg bc_new_plugin) \<and>
   bc_masterSetups (bc_on_script_loaded receiver (bc_init bcfg bc_new_plugin)) =
     (if truthy (bc_master (bc_p_options (bc_init bcfg bc_new_plugin))) \<and> \<not> receiver
      then 1 else 0) \<and>
   bc_clientSetups (bc_on_script_loaded receiver (bc_init bcfg bc_new_plugin)) =
     (if truthy (bc_client (bc_p_options (bc_init bcfg bc_new_plugin))) then 1 else 0)"
proof (intro conjI impI)
  assume none: "case cfg of None \<Rightarrow> True | Some c \<Rightarrow> cfg_socketId c = None"
  let ?p = "init cfg new_plugin"
  have undef: "socketId (p_options ?p) = JUndefined"
    using none
    by (cases cfg) (simp_all add: init_def Let_def new_plugin_def default_options_def assign_def)
  have fields: "\<not> scriptRequested ?p" "\<not> connectHandler ?p"
    using none
    by (cases cfg; simp add: init_def Let_def new_plugin_def default_options_def assign_def)+
  from fields show "foldl lifecycle_step ?p ls = ?p"
    by (rule lifecycle_inert)
  from fields show "\<not> scriptRequested ?p" and "\<not> connectHandler ?p"
    by simp_all
  show "\<not> socket ?p" and "masterSetups ?p = 0" and "clientSetups ?p = 0"
    using none
    by (cases cfg; simp add: init_def Let_def new_plugin_def default_options_def assign_def)+
next
  show "bc_scriptRequested (bc_init bcfg bc_new_plugin)"
    by (simp add: bc_init_def Let_def)
  show "bc_masterSetups (bc_on_script_loaded receiver (bc_init bcfg bc_new_plugin)) =
     (if truthy (bc_master (bc_p_options (bc_init bcfg bc_new_plugin))) \<and> \<not> receiver
      then 1 else 0)"
    by (cases bcfg) (simp_all add: bc_init_def Let_def bc_on_script_loaded_def bc_new_plugin_def)
  show "bc_clientSetups (bc_on_script_loaded receiver (bc_init bcfg bc_new_plugin)) =
     (if truthy (bc_client (bc_p_options (bc_init bcfg bc_new_plugin))) then 1 else 0)"
    by (cases bcfg) (simp_all add: bc_init_def Let_def bc_on_script_loaded_def bc_new_plugin_def)
qed

text \<open>
  A configuration that sets a secret and a delay but no \<open>socketId\<close>: the
  options are merged and the plugin stays as it is through loading and
  connection events. With a \<open>socketId\<close> the same plugin becomes publisher and
  subscriber, once.
\<close>

theorem init_without_socketId_inert_witness:
  "cfg_socketId \<lparr>cfg_secret = Some (JStr ''s3cret''), cfg_socketId = None,
       cfg_eventDispatchDelay = None, cfg_stateDispatchDelay = Some 250,
       cfg_remoteStateChangeBlackout = None\<rparr> = None \<and>
   foldl lifecycle_step
     (init (Some \<lparr>cfg_secret = Some (JStr ''s3cret''), cfg_socketId = None,
       cfg_eventDispatchDelay = None, cfg_stateDispatchDelay = Some 250,
       cfg_remoteStateChangeBlackout = None\<rparr>) new_plugin)
     [ScriptLoaded, Connect, Connect] =
   new_plugin\<lparr>p_options := default_options\<lparr>secret := JStr ''s3cret'',
                                              stateDispatchDelay := 250\<rparr>\<rparr> \<and>
   masterSetups (foldl lifecycle_step
     (init (Some \<lparr>cfg_secret = Some (JStr ''s3cret''), cfg_socketId = Some (JStr ''main''),
       cfg_eventDispatchDelay = None, cfg_stateDispatchDelay = Some 250,
       cfg_remoteStateChangeBlackout = None\<rparr>) new_plugin)
     [ScriptLoaded, Connect, Connect]) = 1"
proof -
  let ?c = "\<lparr>cfg_secret = Some (JStr ''s3cret''), cfg_socketId = None,
       cfg_eventDispatchDelay = None, cfg_stateDispatchDelay = Some 250,
       cfg_remoteStateChangeBlackout = None\<rparr>"
  have h: "case Some ?c of None \<Rightarrow> True | Some c \<Rightarrow> cfg_socketId c = None"
    by simp
  have i: "init (Some ?c) new_plugin =
      new_plugin\<lparr>p_options := default_options\<lparr>secret := JStr ''s3cret'',
                                                 stateDispatchDelay := 250\<rparr>\<rparr>"
    by (simp add: init_def Let_def new_plugin_def default_options_def assign_def)
  have m: "masterSetups (foldl lifecycle_step
     (init (Some \<lparr>cfg_secret = Some (JStr ''s3cret''), cfg_socketId = Some (JStr ''main''),
       cfg_eventDispatchDelay = None, cfg_stateDispatchDelay = Some 250,
       cfg_remoteStateChangeBlackout = None\<rparr>) new_plugin)
     [ScriptLoaded, Connect, Connect]) = 1"
    by (simp add: init_def Let_def new_plugin_def default_options_def assign_def
        on_script_loaded_def on_connect_def setupMaster_def setupClient_def)
  from init_without_socketId_inert [of "Some ?c" "[ScriptLoaded, Connect, Connect]"] h
  have "foldl lifecycle_step (init (Some ?c) new_plugin) [ScriptLoaded, Connect, Connect] =
      init (Some ?c) new_plugin"
    by blast
  with i m show ?thesis by simp
qed

end
